theory Spec2Isabelle
  imports Complex_Main
begin

section \<open>Values thrown and values extracted\<close>

text \<open>
  A JavaScript \<^verbatim>\<open>throw\<close> carries a value: either an \<^verbatim>\<open>Error\<close> object with a message
  (thrown by the scraper itself or by the browser engine), or \<^verbatim>\<open>undefined\<close>, which is what
  \<^verbatim>\<open>retry\<close> throws when its loop never ran. A rejected promise is \<open>Inl\<close> of the thrown
  value, a fulfilled one is \<open>Inr\<close> of the result.
\<close>

datatype error = Undefined | Error string

text \<open>A field's value in \<^verbatim>\<open>data\<close> is \<^verbatim>\<open>string | string[]\<close>.\<close>

datatype extracted = Scalar string | Seq "string list"

text \<open>A selector entry of the options is \<^verbatim>\<open>string | string[]\<close>.\<close>

datatype selector = Single string | Many "string list"

section \<open>retry\<close>

text \<open>
  \<^verbatim>\<open>retry(operation, maxRetries = 3, delay = 1000)\<close>. The operation is called once per
  attempt, so it is given as the outcome of its call at each attempt index. \<^verbatim>\<open>Math.random()\<close>
  is called at most once per attempt and is given the same way. The result is paired with
  the durations handed to \<^verbatim>\<open>setTimeout\<close>, in order. JavaScript numbers are taken as
  reals (no rounding), and \<^verbatim>\<open>maxRetries\<close> as an integer.
\<close>

function retry_loop ::
  "(nat \<Rightarrow> error + 'a) \<Rightarrow> int \<Rightarrow> real \<Rightarrow> (nat \<Rightarrow> real) \<Rightarrow> nat \<Rightarrow> error \<Rightarrow> real list
    \<Rightarrow> (error + 'a) \<times> real list" where
  "retry_loop operation maxRetries delay random attempt lastError sleeps =
     (if int attempt < maxRetries then
        (case operation attempt of
           Inr v \<Rightarrow> (Inr v, sleeps)
         | Inl e \<Rightarrow>
             retry_loop operation maxRetries delay random (Suc attempt) e
               (if int attempt < maxRetries - 1
                then sleeps @ [delay * 2 ^ attempt * (0.5 + random attempt * 0.5)]
                else sleeps))
      else (Inl lastError, sleeps))"
  by pat_completeness auto
termination
  by (relation "measure (\<lambda>(operation, maxRetries, delay, random, attempt, lastError, sleeps).
        nat (maxRetries - int attempt))") auto

declare retry_loop.simps [simp del]

definition retry ::
  "(nat \<Rightarrow> error + 'a) \<Rightarrow> int \<Rightarrow> real \<Rightarrow> (nat \<Rightarrow> real) \<Rightarrow> (error + 'a) \<times> real list" where
  "retry operation maxRetries delay random =
     retry_loop operation maxRetries delay random 0 Undefined []"

section \<open>Text of an element\<close>

text \<open>
  \<^verbatim>\<open>el.textContent?.trim().replace(/\s+/g, ' ') || ''\<close>. Characters are 8-bit here, so
  white space is the part of JavaScript's \<^verbatim>\<open>\s\<close> below 256: tab, line feed, vertical tab,
  form feed, carriage return, space and no-break space.
\<close>

definition is_space :: "char \<Rightarrow> bool" where
  "is_space c = (of_char c \<in> {9, 10, 11, 12, 13, 32, 160 :: nat})"

definition trim :: "string \<Rightarrow> string" where
  "trim s = rev (dropWhile is_space (rev (dropWhile is_space s)))"

text \<open>Every maximal run of white space becomes one space.\<close>

function replace_spaces :: "string \<Rightarrow> string" where
  "replace_spaces [] = []"
| "replace_spaces (c # cs) =
     (if is_space c then CHR '' '' # replace_spaces (dropWhile is_space cs)
      else c # replace_spaces cs)"
  by pat_completeness auto
termination
  by (relation "measure length") (auto simp: length_dropWhile_le less_Suc_eq_le)

definition normalise_text :: "string option \<Rightarrow> string" where
  "normalise_text t = (case t of None \<Rightarrow> [] | Some s \<Rightarrow> replace_spaces (trim s))"

section \<open>Sets as JavaScript spreads them\<close>

text \<open>
  \<^verbatim>\<open>[...new Set(xs)]\<close>: the distinct members of \<open>xs\<close> in the order of their first
  occurrence. The first argument holds what the set already contains.
\<close>

fun set_spread :: "'a list \<Rightarrow> 'a list \<Rightarrow> 'a list" where
  "set_spread seen [] = []"
| "set_spread seen (x # xs) =
     (if x \<in> set seen then set_spread seen xs else x # set_spread (seen @ [x]) xs)"

definition unique :: "'a list \<Rightarrow> 'a list" where
  "unique xs = set_spread [] xs"

section \<open>The page function of the selector query\<close>

text \<open>
  An element is identified by its position in the document: the child indices from the
  element up to the root element, so that the rest of the position is the parent's and the
  root element has no parent element.
\<close>

type_synonym element = "nat list"

fun parentElement :: "element \<Rightarrow> element option" where
  "parentElement [] = None"
| "parentElement (i # p) = Some p"

text \<open>
  What \<^verbatim>\<open>$$eval(selector, f)\<close> hands to \<open>f\<close>: the elements the selector matches, in
  document order, and the text content of the document's elements at that moment.
\<close>

record snapshot =
  els :: "element list"
  textContent :: "element \<Rightarrow> string option"

text \<open>The \<^verbatim>\<open>while (parent)\<close> loop of the filter: is \<open>parent\<close> or one of its ancestors selected?\<close>

function ancestor_selected :: "element list \<Rightarrow> element option \<Rightarrow> bool" where
  "ancestor_selected sel None = False"
| "ancestor_selected sel (Some parent) =
     (if parent \<in> set sel then True else ancestor_selected sel (parentElement parent))"
  by pat_completeness auto
termination
  by (relation "measure (\<lambda>(sel, p). case p of None \<Rightarrow> 0 | Some q \<Rightarrow> Suc (length q))")
     (auto split: option.splits elim: parentElement.elims)

text \<open>The ancestors of an element, nearest first; \<open>a\<close> contains \<open>b\<close> when it is one of them.\<close>

fun ancestors :: "element \<Rightarrow> element list" where
  "ancestors [] = []"
| "ancestors (i # p) = p # ancestors p"

definition contains :: "element \<Rightarrow> element \<Rightarrow> bool" where
  "contains a b = (a \<in> set (ancestors b))"

definition filteredEls :: "element list \<Rightarrow> element list" where
  "filteredEls sel = filter (\<lambda>el. \<not> ancestor_selected sel (parentElement el)) sel"

definition extractedElements :: "snapshot \<Rightarrow> string list" where
  "extractedElements snap =
     filter (\<lambda>s. s \<noteq> [])
       (map (\<lambda>el. normalise_text (textContent snap el)) (filteredEls (els snap)))"

section \<open>Options\<close>

text \<open>
  \<^verbatim>\<open>Required<ScrapingOptions>\<close>, the options as \<^verbatim>\<open>scrapeWebPage\<close> reads them. The selector
  map is the list \<^verbatim>\<open>Object.entries\<close> returns. \<^verbatim>\<open>scrapeWebPage\<close> tests
  \<^verbatim>\<open>options.excludeChildPage\<close> for truthiness before calling it, so this one field may hold
  no function (\<open>None\<close> is \<^verbatim>\<open>undefined\<close>). Depths, counts and timeouts are integers.
\<close>

record options =
  maxDepth :: int
  selectors :: "(string \<times> selector) list"
  excludeChildPage :: "(string \<Rightarrow> bool) option"
  withConsole :: bool
  breakWhenFailed :: bool
  retryCount :: int
  waitForSelectorTimeout :: int
  waitForPageLoadTimeout :: int

text \<open>
  \<^verbatim>\<open>ScrapingOptions\<close>, what the caller passes: \<open>None\<close> is a key the caller left out. For
  \<^verbatim>\<open>excludeChildPage\<close> the caller may also pass the key with the value \<^verbatim>\<open>undefined\<close>
  (\<open>Some None\<close>), which \<^verbatim>\<open>Object.assign\<close> copies over the default like any other value.
\<close>

record scraping_options =
  opt_maxDepth :: "int option"
  opt_selectors :: "(string \<times> selector) list option"
  opt_excludeChildPage :: "(string \<Rightarrow> bool) option option"
  opt_withConsole :: "bool option"
  opt_breakWhenFailed :: "bool option"
  opt_retryCount :: "int option"
  opt_waitForSelectorTimeout :: "int option"
  opt_waitForPageLoadTimeout :: "int option"

definition MAX_DEEPEST_DEPTH :: int where
  "MAX_DEEPEST_DEPTH = 10"

definition DefaultScrapingOptions :: options where
  "DefaultScrapingOptions =
     \<lparr> maxDepth = 0,
       selectors =
         [(''headings'', Many [''h1'', ''h2'', ''h3'', ''h4'', ''h5'']),
          (''paragraphs'', Single ''p''),
          (''articles'', Single ''article''),
          (''spans'', Single ''span''),
          (''orderLists'', Single ''ol''),
          (''lists'', Single ''ul'')],
       excludeChildPage = Some (\<lambda>url. False),
       withConsole = True,
       breakWhenFailed = False,
       retryCount = 3,
       waitForSelectorTimeout = 12000,
       waitForPageLoadTimeout = 12000 \<rparr>"

text \<open>\<^verbatim>\<open>Object.assign({}, DefaultScrapingOptions, _options)\<close>: every key present wins.\<close>

definition assign :: "options \<Rightarrow> scraping_options \<Rightarrow> options" where
  "assign d u =
     \<lparr> maxDepth = (case opt_maxDepth u of None \<Rightarrow> maxDepth d | Some v \<Rightarrow> v),
       selectors = (case opt_selectors u of None \<Rightarrow> selectors d | Some v \<Rightarrow> v),
       excludeChildPage =
         (case opt_excludeChildPage u of None \<Rightarrow> excludeChildPage d | Some v \<Rightarrow> v),
       withConsole = (case opt_withConsole u of None \<Rightarrow> withConsole d | Some v \<Rightarrow> v),
       breakWhenFailed =
         (case opt_breakWhenFailed u of None \<Rightarrow> breakWhenFailed d | Some v \<Rightarrow> v),
       retryCount = (case opt_retryCount u of None \<Rightarrow> retryCount d | Some v \<Rightarrow> v),
       waitForSelectorTimeout =
         (case opt_waitForSelectorTimeout u of
            None \<Rightarrow> waitForSelectorTimeout d | Some v \<Rightarrow> v),
       waitForPageLoadTimeout =
         (case opt_waitForPageLoadTimeout u of
            None \<Rightarrow> waitForPageLoadTimeout d | Some v \<Rightarrow> v) \<rparr>"

text \<open>The options object \<^verbatim>\<open>{}\<close>.\<close>

definition no_options :: scraping_options where
  "no_options =
     \<lparr> opt_maxDepth = None, opt_selectors = None, opt_excludeChildPage = None,
       opt_withConsole = None, opt_breakWhenFailed = None, opt_retryCount = None,
       opt_waitForSelectorTimeout = None, opt_waitForPageLoadTimeout = None \<rparr>"

section \<open>The browser engine\<close>

text \<open>
  Puppeteer is outside the repository; what it answers is a parameter. A loaded page
  answers \<^verbatim>\<open>title()\<close>, \<^verbatim>\<open>waitForSelector\<close>, the selector query of a field and the query
  for the anchors' \<^verbatim>\<open>href\<close>s; each may reject. The fields run concurrently and each attempt
  of a field asks again, so the answers to a field's calls are indexed by the field's key
  and the attempt, then the selector.
\<close>

record page =
  page_title :: "error + string"
  waitForSelector :: "string \<Rightarrow> nat \<Rightarrow> string \<Rightarrow> int \<Rightarrow> error option"
  eval_all :: "string \<Rightarrow> nat \<Rightarrow> string \<Rightarrow> error + snapshot"
  eval_anchors :: "error + string list"

text \<open>
  One scrape of a URL launches one browser; a URL is scraped at most once in a session, so
  the engine's answers are indexed by the URL. \<open>hostname\<close> is \<^verbatim>\<open>new URL(s).hostname\<close>,
  \<open>None\<close> where the constructor throws. \<open>math_random\<close> gives the values of
  \<^verbatim>\<open>Math.random()\<close> to a field's retries.
\<close>

record world =
  launch :: "string \<Rightarrow> error option"
  newPage :: "string \<Rightarrow> error option"
  goto :: "string \<Rightarrow> int \<Rightarrow> error + page"
  close :: "string \<Rightarrow> error option"
  hostname :: "string \<Rightarrow> string option"
  math_random :: "string \<Rightarrow> string \<Rightarrow> nat \<Rightarrow> real"

definition isValidUrl :: "world \<Rightarrow> string \<Rightarrow> bool" where
  "isValidUrl w urlString = (case hostname w urlString of None \<Rightarrow> False | Some h \<Rightarrow> True)"

definition isSameDomain :: "world \<Rightarrow> string \<Rightarrow> string \<Rightarrow> bool" where
  "isSameDomain w baseUrl targetUrl =
     (case hostname w baseUrl of
        None \<Rightarrow> False
      | Some base \<Rightarrow>
          (case hostname w targetUrl of None \<Rightarrow> False | Some target \<Rightarrow> base = target))"

section \<open>Extracting one field\<close>

text \<open>One selector of a field: wait for it, query it, filter and read the text.\<close>

definition selectorTask :: "page \<Rightarrow> options \<Rightarrow> string \<Rightarrow> nat \<Rightarrow> string \<Rightarrow> error + string list" where
  "selectorTask pg options key attempt singleSelector =
     (case waitForSelector pg key attempt singleSelector (waitForSelectorTimeout options) of
        Some e \<Rightarrow> Inl e
      | None \<Rightarrow>
          (case eval_all pg key attempt singleSelector of
             Inl e \<Rightarrow> Inl e
           | Inr snap \<Rightarrow> Inr (extractedElements snap)))"

text \<open>
  The operation handed to \<^verbatim>\<open>retry\<close>: \<^verbatim>\<open>Promise.allSettled\<close> over the selectors, a rejected
  selector counting as \<^verbatim>\<open>[]\<close>, then \<^verbatim>\<open>flat()\<close> and the spread of the set.
\<close>

definition allElements :: "page \<Rightarrow> options \<Rightarrow> string \<Rightarrow> selector \<Rightarrow> nat \<Rightarrow> string list" where
  "allElements pg options key selector attempt =
     (let selectors = (case selector of Many ss \<Rightarrow> ss | Single s \<Rightarrow> [s]);
          selectorResults = map (selectorTask pg options key attempt) selectors
      in concat (map (\<lambda>res. case res of Inr v \<Rightarrow> v | Inl e \<Rightarrow> []) selectorResults))"

definition field_operation :: "page \<Rightarrow> options \<Rightarrow> string \<Rightarrow> selector \<Rightarrow> nat \<Rightarrow> error + string list" where
  "field_operation pg options key selector attempt =
     Inr (unique (allElements pg options key selector attempt))"

text \<open>
  The task of one field: the retried operation inside \<^verbatim>\<open>try\<close>, the collapse of a
  one-element array, and \<^verbatim>\<open>''\<close> from the \<^verbatim>\<open>catch\<close>.
\<close>

definition selectorPromise ::
  "world \<Rightarrow> page \<Rightarrow> options \<Rightarrow> string \<Rightarrow> string \<times> selector \<Rightarrow> error + string \<times> extracted" where
  "selectorPromise w pg options url entry =
     (case entry of (key, selector) \<Rightarrow>
        (case fst (retry (field_operation pg options key selector) (retryCount options) 1000
                     (math_random w url key)) of
           Inr elements \<Rightarrow>
             Inr (key, if length elements = 1 then Scalar (elements ! 0) else Seq elements)
         | Inl error \<Rightarrow> Inr (key, Scalar [])))"

section \<open>Scraping one page\<close>

text \<open>
  \<^verbatim>\<open>ScrapingResult\<close>. The \<^verbatim>\<open>data\<close> object is the list of its own keys and values in the
  order they were assigned; \<open>None\<close> for \<^verbatim>\<open>childPages\<close> is \<^verbatim>\<open>undefined\<close>. The \<^verbatim>\<open>timestamp\<close> reads
  the wall clock and is left out, and so are the lines written to the console.
\<close>

datatype result =
  ScrapingResult (url_of: string) (title_of: string) (data_of: "(string \<times> extracted) list")
    (childPages_of: "result list option")

text \<open>
  \<^verbatim>\<open>data[key] = value\<close> on the plain object \<^verbatim>\<open>data\<close>. An ordinary key is replaced where it
  is, or added at the end. The key \<^verbatim>\<open>__proto__\<close> is the accessor inherited from
  \<^verbatim>\<open>Object.prototype\<close>: the assignment runs its setter and stores no own property (the
  setter makes an array the object's prototype and ignores a string; the prototype is not
  part of the list of own properties).
\<close>

fun obj_put :: "(string \<times> 'v) list \<Rightarrow> string \<Rightarrow> 'v \<Rightarrow> (string \<times> 'v) list" where
  "obj_put [] key v = [(key, v)]"
| "obj_put ((k, x) # kvs) key v =
     (if k = key then (key, v) # kvs else (k, x) # obj_put kvs key v)"

definition obj_set :: "(string \<times> 'v) list \<Rightarrow> string \<Rightarrow> 'v \<Rightarrow> (string \<times> 'v) list" where
  "obj_set data key v = (if key = ''__proto__'' then data else obj_put data key v)"

text \<open>An array in a template string: its members joined by commas.\<close>

fun join_comma :: "string list \<Rightarrow> string" where
  "join_comma [] = []"
| "join_comma [x] = x"
| "join_comma (x # y # ys) = x @ '','' @ join_comma (y # ys)"

definition selector_string :: "selector \<Rightarrow> string" where
  "selector_string selector = (case selector of Single s \<Rightarrow> s | Many ss \<Rightarrow> join_comma ss)"

text \<open>
  \<^verbatim>\<open>results.forEach\<close> over the settled field tasks, each paired with its entry: a rejected
  task throws when \<^verbatim>\<open>breakWhenFailed\<close> is set and is skipped otherwise; a fulfilled one is
  stored.
\<close>

fun collect ::
  "options \<Rightarrow> ((string \<times> selector) \<times> (error + string \<times> extracted)) list
     \<Rightarrow> (string \<times> extracted) list \<Rightarrow> error + (string \<times> extracted) list" where
  "collect options [] data = Inr data"
| "collect options ((entry, Inl reason) # rest) data =
     (if breakWhenFailed options
      then Inl (Error (''Failed to extract '' @ fst entry @ '' with selector ''
                        @ selector_string (snd entry)))
      else collect options rest data)"
| "collect options ((entry, Inr (key, v)) # rest) data =
     collect options rest (obj_set data key v)"

text \<open>
  From the loaded page to the title, the data and the distinct links: everything between
  \<^verbatim>\<open>page.goto\<close> and the recursion.
\<close>

definition page_content ::
  "world \<Rightarrow> string \<Rightarrow> options \<Rightarrow> page
     \<Rightarrow> error + string \<times> (string \<times> extracted) list \<times> string list" where
  "page_content w url options pg =
     (case page_title pg of
        Inl e \<Rightarrow> Inl e
      | Inr title \<Rightarrow>
          (let entrys = selectors options;
               results = map (selectorPromise w pg options url) entrys
           in case collect options (zip entrys results) [] of
                Inl e \<Rightarrow> Inl e
              | Inr data \<Rightarrow>
                  (case eval_anchors pg of
                     Inl e \<Rightarrow> Inl e
                   | Inr hrefs \<Rightarrow>
                       (let links = filter (\<lambda>href. href \<noteq> [] \<and> take 4 href = ''http'') hrefs;
                            uniqueLinks = unique links
                        in Inr (title, data, uniqueLinks)))))"

text \<open>The links the recursion follows.\<close>

definition validLinks :: "world \<Rightarrow> string \<Rightarrow> options \<Rightarrow> string set \<Rightarrow> string list \<Rightarrow> string list" where
  "validLinks w url options visited uniqueLinks =
     filter (\<lambda>link.
        isValidUrl w link \<and> link \<notin> visited \<and>
        (case excludeChildPage options of
           Some exclude \<Rightarrow> exclude link
         | None \<Rightarrow> isSameDomain w url link))
       uniqueLinks"

section \<open>The session\<close>

text \<open>
  The state a session threads through its scrapes: the set of visited URLs, shared by
  all recursive calls, and the calls made to the browser engine so far.
\<close>

datatype event = Launch string | Goto string | Close string

record state =
  visitedUrls :: "string set"
  trace :: "event list"

text \<open>The URLs a trace launched a browser for, in order.\<close>

fun launched :: "event list \<Rightarrow> string list" where
  "launched [] = []"
| "launched (Launch url # evs) = url # launched evs"
| "launched (Goto url # evs) = launched evs"
| "launched (Close url # evs) = launched evs"

definition emit :: "event \<Rightarrow> state \<Rightarrow> state" where
  "emit ev s = s\<lparr>trace := trace s @ [ev]\<rparr>"

text \<open>\<^verbatim>\<open>browser.newPage()\<close> and \<^verbatim>\<open>page.goto(url, ...)\<close>.\<close>

definition load_page :: "world \<Rightarrow> string \<Rightarrow> options \<Rightarrow> state \<Rightarrow> (error + page) \<times> state" where
  "load_page w url options s =
     (case newPage w url of
        Some e \<Rightarrow> (Inl e, s)
      | None \<Rightarrow> (goto w url (waitForPageLoadTimeout options), emit (Goto url) s))"

text \<open>\<^verbatim>\<open>finally { await browser.close() }\<close>: a rejected close replaces the outcome.\<close>

definition finally_close ::
  "world \<Rightarrow> string \<Rightarrow> (error + result) \<times> state \<Rightarrow> (error + result) \<times> state" where
  "finally_close w url outcome =
     (case close w url of
        Some e \<Rightarrow> (Inl e, emit (Close url) (snd outcome))
      | None \<Rightarrow> (fst outcome, emit (Close url) (snd outcome)))"

text \<open>
  \<^verbatim>\<open>scrapeWebPage\<close>, and the \<^verbatim>\<open>for\<close> loop over the valid links, which calls it for each
  link at the next depth with the same visited set.
\<close>

function scrapeWebPage ::
    "world \<Rightarrow> string \<Rightarrow> options \<Rightarrow> int \<Rightarrow> state \<Rightarrow> (error + result) \<times> state"
  and scrapeChildren ::
    "world \<Rightarrow> options \<Rightarrow> string list \<Rightarrow> int \<Rightarrow> state \<Rightarrow> result list
       \<Rightarrow> (error + result list) \<times> state" where
  "scrapeWebPage w url options currentDepth s =
     (if url \<in> visitedUrls s
      then (Inr (ScrapingResult url ''Already visited'' [] None), s)
      else
        (let s1 = s\<lparr>visitedUrls := insert url (visitedUrls s)\<rparr> in
         case launch w url of
           Some e \<Rightarrow> (Inl e, emit (Launch url) s1)
         | None \<Rightarrow>
             finally_close w url
               (case load_page w url options (emit (Launch url) s1) of
                  (Inl e, s2) \<Rightarrow> (Inl e, s2)
                | (Inr pg, s2) \<Rightarrow>
                    (case page_content w url options pg of
                       Inl e \<Rightarrow> (Inl e, s2)
                     | Inr (title, data, uniqueLinks) \<Rightarrow>
                         (case (if currentDepth < maxDepth options
                                then scrapeChildren w options
                                       (validLinks w url options (visitedUrls s2) uniqueLinks)
                                       (currentDepth + 1) s2 []
                                else (Inr [], s2)) of
                            (Inl e, s3) \<Rightarrow> (Inl e, s3)
                          | (Inr childPages, s3) \<Rightarrow>
                              (Inr (ScrapingResult url title data
                                     (if length childPages > 0 then Some childPages else None)),
                               s3))))))"
| "scrapeChildren w options [] depth s childPages = (Inr childPages, s)"
| "scrapeChildren w options (link # rest) depth s childPages =
     (case scrapeWebPage w link options depth s of
        (Inr childResult, s') \<Rightarrow>
          scrapeChildren w options rest depth s' (childPages @ [childResult])
      | (Inl e, s') \<Rightarrow>
          (if breakWhenFailed options then (Inl e, s')
           else scrapeChildren w options rest depth s' childPages))"
  by pat_completeness auto
termination
  by (relation "inv_image (less_than <*lex*> less_than)
        (\<lambda>x. case x of
           Inl (w, url, options, d, s) \<Rightarrow> (2 * nat (maxDepth options - d), 0)
         | Inr (w, options, links, d, s, acc) \<Rightarrow>
             (2 * nat (maxDepth options - d) + 1, length links))") auto

declare scrapeWebPage.simps [simp del]

text \<open>
  \<^verbatim>\<open>scraping\<close>, the entry point. It returns the outcome together with the calls made to the
  browser engine.
\<close>

definition scraping :: "world \<Rightarrow> string \<Rightarrow> scraping_options \<Rightarrow> (error + result) \<times> event list" where
  "scraping w url opts =
     (let options = assign DefaultScrapingOptions opts in
      if maxDepth options > MAX_DEEPEST_DEPTH
      then (Inl (Error ''Max depth exceeds the maximum depth''), [])
      else
        (case scrapeWebPage w url options 0 \<lparr>visitedUrls = {}, trace = []\<rparr> of
           (outcome, s) \<Rightarrow> (outcome, trace s)))"

section \<open>A small site\<close>

text \<open>
  Two pages of one host that link to each other and to a page of another host. On each page
  a \<^verbatim>\<open>div\<close> (the first child of the root) contains a \<^verbatim>\<open>span\<close>; no \<^verbatim>\<open>h1\<close> ever appears.
\<close>

definition outer :: element where
  "outer = [0]"

definition inner :: element where
  "inner = [0, 0]"

definition site_text :: "element \<Rightarrow> string option" where
  "site_text el =
     (if el = outer then Some ''  Hello   World ''
      else if el = inner then Some ''World''
      else None)"

definition site_page :: "string \<Rightarrow> string list \<Rightarrow> page" where
  "site_page t hrefs =
     \<lparr> page_title = Inr t,
       waitForSelector = (\<lambda>key attempt sel timeout.
         if sel = ''div'' \<or> sel = ''span'' \<or> sel = ''div, span'' then None
         else Some (Error ''TimeoutError'')),
       eval_all = (\<lambda>key attempt sel.
         if sel = ''div'' then Inr \<lparr>els = [outer], textContent = site_text\<rparr>
         else if sel = ''span'' then Inr \<lparr>els = [inner], textContent = site_text\<rparr>
         else if sel = ''div, span'' then Inr \<lparr>els = [outer, inner], textContent = site_text\<rparr>
         else Inr \<lparr>els = [], textContent = site_text\<rparr>),
       eval_anchors = Inr hrefs \<rparr>"

definition home :: string where
  "home = ''http://a.test/''"

definition about :: string where
  "about = ''http://a.test/about''"

definition other :: string where
  "other = ''http://b.test/''"

text \<open>The home page as the engine loads it.\<close>

definition home_page :: page where
  "home_page = site_page ''Home'' [about, other, about, ''mailto:x'', []]"

definition site :: world where
  "site =
     \<lparr> launch = (\<lambda>url. None),
       newPage = (\<lambda>url. None),
       goto = (\<lambda>url timeout.
         if url = home then Inr home_page
         else if url = about then Inr (site_page ''About'' [home, other])
         else if url = other then Inr (site_page ''Other'' [])
         else Inl (Error ''net::ERR_NAME_NOT_RESOLVED'')),
       close = (\<lambda>url. None),
       hostname = (\<lambda>url.
         if url = home \<or> url = about then Some ''a.test''
         else if url = other then Some ''b.test''
         else None),
       math_random = (\<lambda>url key attempt. 1 / 4) \<rparr>"

text \<open>The same site when no browser can be launched.\<close>

definition offline :: world where
  "offline = site\<lparr>launch := (\<lambda>url. Some (Error ''Failed to launch the browser process''))\<rparr>"

text \<open>Option sets for the small site.\<close>

definition one_level :: scraping_options where
  "one_level = no_options\<lparr>opt_maxDepth := Some 1, opt_selectors := Some [(''body'', Single ''div'')]\<rparr>"

definition two_fields :: scraping_options where
  "two_fields =
     no_options\<lparr>opt_selectors := Some [(''title'', Single ''h1''), (''body'', Single ''div'')]\<rparr>"

definition follow_all :: scraping_options where
  "follow_all =
     no_options\<lparr>opt_maxDepth := Some 2, opt_selectors := Some [(''body'', Single ''div'')],
       opt_excludeChildPage := Some (Some (\<lambda>url. True))\<rparr>"

text \<open>An operation that fails twice and then succeeds, and one that always fails.\<close>

definition flaky :: "nat \<Rightarrow> error + nat" where
  "flaky attempt = (if attempt < 2 then Inl (Error ''busy'') else Inr 7)"

definition failing :: "nat \<Rightarrow> error + nat" where
  "failing attempt = Inl (Error (if attempt = 0 then ''first'' else ''later''))"

section \<open>retry: backoff and exhaustion\<close>

lemma retry_loop_exhausted:
  "int attempt < maxRetries \<Longrightarrow>
   (\<forall>i. attempt \<le> i \<and> int i < maxRetries \<longrightarrow> operation i = Inl (errs i)) \<Longrightarrow>
   fst (retry_loop operation maxRetries delay random attempt lastError sleeps)
     = Inl (errs (nat (maxRetries - 1)))"
proof (induction operation maxRetries delay random attempt lastError sleeps
        rule: retry_loop.induct)
  case (1 operation maxRetries delay random attempt lastError sleeps)
  have here: "operation attempt = Inl (errs attempt)"
    using "1.prems" by simp
  show ?case
  proof (cases "int (Suc attempt) < maxRetries")
    case True
    have "fst (retry_loop operation maxRetries delay random (Suc attempt) (errs attempt)
            (if int attempt < maxRetries - 1
             then sleeps @ [delay * 2 ^ attempt * (0.5 + random attempt * 0.5)]
             else sleeps)) = Inl (errs (nat (maxRetries - 1)))"
      using "1.IH" [OF "1.prems"(1) here True] "1.prems"(2) by simp
    then show ?thesis
      using "1.prems"(1) here by (subst retry_loop.simps) simp
  next
    case False
    then have last: "attempt = nat (maxRetries - 1)"
      using "1.prems"(1) by linarith
    have stop: "retry_loop operation maxRetries delay random (Suc attempt) (errs attempt) sleeps
                  = (Inl (errs attempt), sleeps)"
      using False by (subst retry_loop.simps) simp
    show ?thesis
      using "1.prems"(1) here False stop last by (subst retry_loop.simps) simp
  qed
qed

lemma retry_fail_fail_succeed:
  assumes "operation 0 = Inl e0" "operation 1 = Inl e1" "operation 2 = Inr v"
  shows "retry operation 3 baseDelay random =
           (Inr v, [baseDelay * 2 ^ 0 * (0.5 + random 0 * 0.5),
                    baseDelay * 2 ^ 1 * (0.5 + random 1 * 0.5)])"
proof -
  have two: "retry_loop operation 3 baseDelay random 2 e1
               [baseDelay * 2 ^ 0 * (0.5 + random 0 * 0.5),
                baseDelay * 2 ^ 1 * (0.5 + random 1 * 0.5)]
             = (Inr v, [baseDelay * 2 ^ 0 * (0.5 + random 0 * 0.5),
                        baseDelay * 2 ^ 1 * (0.5 + random 1 * 0.5)])"
    using assms(3) by (subst retry_loop.simps) simp
  have one: "retry_loop operation 3 baseDelay random 1 e0
               [baseDelay * 2 ^ 0 * (0.5 + random 0 * 0.5)]
             = (Inr v, [baseDelay * 2 ^ 0 * (0.5 + random 0 * 0.5),
                        baseDelay * 2 ^ 1 * (0.5 + random 1 * 0.5)])"
    using assms(2) two by (subst retry_loop.simps) (simp add: numeral_2_eq_2)
  show ?thesis
    unfolding retry_def using assms(1) one by (subst retry_loop.simps) simp
qed

lemma jitter_bounds:
  fixes baseDelay u :: real
  assumes "0 \<le> baseDelay" "0 \<le> u" "u < 1"
  shows "baseDelay * 2 ^ i * 0.5 \<le> baseDelay * 2 ^ i * (0.5 + u * 0.5)"
    and "baseDelay * 2 ^ i * (0.5 + u * 0.5) \<le> baseDelay * 2 ^ i"
proof -
  have nonneg: "0 \<le> baseDelay * 2 ^ i" using assms(1) by simp
  have "0.5 \<le> 0.5 + u * 0.5" using assms(2) by simp
  then show "baseDelay * 2 ^ i * 0.5 \<le> baseDelay * 2 ^ i * (0.5 + u * 0.5)"
    using nonneg by (rule mult_left_mono)
  have "0.5 + u * 0.5 \<le> 1" using assms(3) by simp
  then have "baseDelay * 2 ^ i * (0.5 + u * 0.5) \<le> baseDelay * 2 ^ i * 1"
    using nonneg by (rule mult_left_mono)
  then show "baseDelay * 2 ^ i * (0.5 + u * 0.5) \<le> baseDelay * 2 ^ i" by simp
qed

text \<open>
  Claim C6. An operation that fails on attempts 0 and 1 and succeeds on attempt 2, retried
  with three attempts, returns the success value after exactly two sleeps, the sleep after
  failed attempt \<open>i\<close> lasting \<open>baseDelay * 2 ^ i * (0.5 + u * 0.5)\<close> where \<open>u\<close> is the value
  of \<^verbatim>\<open>Math.random()\<close> at that attempt; with a delay that is not negative and \<open>u\<close> in
  \<open>[0, 1)\<close> each sleep lies between \<open>baseDelay * 2 ^ i * 0.5\<close> and \<open>baseDelay * 2 ^ i\<close>.
  When every one of the (at least one) attempts fails, \<^verbatim>\<open>retry\<close> fails with the error of the
  last attempt.
\<close>

theorem retry_backoff:
  "(operation 0 = Inl e0 \<and> operation 1 = Inl e1 \<and> operation 2 = Inr v \<longrightarrow>
      retry operation 3 baseDelay random =
        (Inr v, [baseDelay * 2 ^ 0 * (0.5 + random 0 * 0.5),
                 baseDelay * 2 ^ 1 * (0.5 + random 1 * 0.5)]) \<and>
      (0 \<le> baseDelay \<and> (\<forall>i. 0 \<le> random i \<and> random i < 1) \<longrightarrow>
         (\<forall>i < 2. baseDelay * 2 ^ i * 0.5 \<le> snd (retry operation 3 baseDelay random) ! i \<and>
                  snd (retry operation 3 baseDelay random) ! i \<le> baseDelay * 2 ^ i))) \<and>
   (0 < maxAttempts \<and> (\<forall>i. int i < maxAttempts \<longrightarrow> failing_op i = Inl (errs i)) \<longrightarrow>
      fst (retry failing_op maxAttempts baseDelay random) = Inl (errs (nat (maxAttempts - 1))))"
proof (intro conjI impI)
  assume h: "operation 0 = Inl e0 \<and> operation 1 = Inl e1 \<and> operation 2 = Inr v"
  then show eq: "retry operation 3 baseDelay random =
        (Inr v, [baseDelay * 2 ^ 0 * (0.5 + random 0 * 0.5),
                 baseDelay * 2 ^ 1 * (0.5 + random 1 * 0.5)])"
    by (simp add: retry_fail_fail_succeed)
  assume r: "0 \<le> baseDelay \<and> (\<forall>i. 0 \<le> random i \<and> random i < 1)"
  show "\<forall>i < 2. baseDelay * 2 ^ i * 0.5 \<le> snd (retry operation 3 baseDelay random) ! i \<and>
                  snd (retry operation 3 baseDelay random) ! i \<le> baseDelay * 2 ^ i"
  proof (intro allI impI)
    fix i :: nat assume "i < 2"
    then have "i = 0 \<or> i = 1" by auto
    then show "baseDelay * 2 ^ i * 0.5 \<le> snd (retry operation 3 baseDelay random) ! i \<and>
                  snd (retry operation 3 baseDelay random) ! i \<le> baseDelay * 2 ^ i"
      using jitter_bounds [of baseDelay "random 0" 0] jitter_bounds [of baseDelay "random 1" 1] r
      by (auto simp: eq)
  qed
next
  assume "0 < maxAttempts \<and> (\<forall>i. int i < maxAttempts \<longrightarrow> failing_op i = Inl (errs i))"
  then show "fst (retry failing_op maxAttempts baseDelay random) = Inl (errs (nat (maxAttempts - 1)))"
    unfolding retry_def by (intro retry_loop_exhausted) auto
qed

theorem retry_backoff_witness:
  "retry flaky 3 1000 (\<lambda>i. 1 / 4) = (Inr 7, [625, 1250]) \<and>
   500 \<le> snd (retry flaky 3 1000 (\<lambda>i. 1 / 4)) ! 0 \<and>
   snd (retry flaky 3 1000 (\<lambda>i. 1 / 4)) ! 1 \<le> 2000 \<and>
   fst (retry failing 2 1000 (\<lambda>i. 1 / 4)) = Inl (Error ''later'')"
  using retry_backoff [of flaky "Error ''busy''" "Error ''busy''" 7 1000 "\<lambda>i. 1 / 4" 2 failing
          "\<lambda>i. Error (if i = 0 then ''first'' else ''later'')"]
  by (simp add: flaky_def failing_def)

section \<open>Distinct values and first attempts\<close>

lemma set_set_spread: "set (set_spread seen xs) = set xs - set seen"
  by (induction xs arbitrary: seen) auto

lemma distinct_set_spread: "distinct (set_spread seen xs)"
  by (induction xs arbitrary: seen) (auto simp: set_set_spread)

lemma set_unique: "set (unique xs) = set xs"
  by (simp add: unique_def set_set_spread)

lemma distinct_unique: "distinct (unique xs)"
  by (simp add: unique_def distinct_set_spread)

lemma length_unique: "length (unique xs) = card (set xs)"
  using distinct_card [OF distinct_unique, of xs] by (simp add: set_unique)

lemma unique_Nil: "unique [] = []"
  by (simp add: unique_def)

lemma hd_unique: "xs \<noteq> [] \<Longrightarrow> hd (unique xs) = hd xs"
  by (cases xs) (simp_all add: unique_def)

lemma retry_first_attempt:
  "0 < maxRetries \<Longrightarrow> operation 0 = Inr v \<Longrightarrow> retry operation maxRetries delay random = (Inr v, [])"
  unfolding retry_def by (subst retry_loop.simps) simp

lemma retry_no_attempt:
  "maxRetries \<le> 0 \<Longrightarrow> retry operation maxRetries delay random = (Inl Undefined, [])"
  unfolding retry_def by (subst retry_loop.simps) simp

lemma selectorPromise_value:
  "selectorPromise w pg options url (key, selector) =
     Inr (key,
       if retryCount options \<le> 0 then Scalar []
       else if length (unique (allElements pg options key selector 0)) = 1
            then Scalar (unique (allElements pg options key selector 0) ! 0)
            else Seq (unique (allElements pg options key selector 0)))"
proof (cases "retryCount options \<le> 0")
  case True
  then show ?thesis
    by (simp add: selectorPromise_def retry_no_attempt)
next
  case False
  then have "0 < retryCount options" by simp
  then have "retry (field_operation pg options key selector) (retryCount options) 1000
               (math_random w url key)
             = (Inr (unique (allElements pg options key selector 0)), [])"
    by (intro retry_first_attempt) (simp_all add: field_operation_def)
  with False show ?thesis
    by (simp add: selectorPromise_def)
qed

section \<open>Unfolding the definitions on the small site\<close>

lemmas site_defs = site_def home_page_def site_page_def site_text_def outer_def inner_def home_def about_def other_def
lemmas opt_defs = assign_def DefaultScrapingOptions_def MAX_DEEPEST_DEPTH_def no_options_def
lemmas field_defs = selectorPromise_def field_operation_def allElements_def selectorTask_def
  extractedElements_def filteredEls_def normalise_text_def trim_def is_space_def unique_def retry_def
lemmas page_defs = page_content_def validLinks_def isValidUrl_def isSameDomain_def load_page_def
  finally_close_def emit_def selector_string_def obj_set_def Let_def

section \<open>The value of a field\<close>

text \<open>
  Claim C7. When the retried operation runs (\<open>retryCount\<close> positive), a field whose merged
  values hold exactly one distinct string is stored as that bare string; with none or with two
  or more distinct strings it is stored as the sequence of the distinct strings, in the order
  of their first occurrence.
\<close>

theorem field_value_arity:
  "0 < retryCount options \<Longrightarrow>
   selectorPromise w pg options url (key, selector) =
     Inr (key,
       if card (set (allElements pg options key selector 0)) = 1
       then Scalar (hd (allElements pg options key selector 0))
       else Seq (unique (allElements pg options key selector 0))) \<and>
   distinct (unique (allElements pg options key selector 0)) \<and>
   set (unique (allElements pg options key selector 0)) = set (allElements pg options key selector 0)"
proof -
  assume pos: "0 < retryCount options"
  let ?all = "allElements pg options key selector 0"
  have one: "unique ?all ! 0 = hd ?all" if "card (set ?all) = 1"
  proof -
    from that have ne: "?all \<noteq> []" by auto
    from that have "length (unique ?all) = 1" by (simp add: length_unique)
    then have "unique ?all ! 0 = hd (unique ?all)"
      by (cases "unique ?all") auto
    then show ?thesis using ne by (simp add: hd_unique)
  qed
  show ?thesis
    using pos one by (simp add: selectorPromise_value length_unique distinct_unique set_unique)
qed

theorem field_value_arity_witness:
  "selectorPromise site (site_page ''Home'' []) DefaultScrapingOptions home (''body'', Single ''div'')
     = Inr (''body'', Scalar ''Hello World'') \<and>
   selectorPromise site (site_page ''Home'' []) DefaultScrapingOptions home (''texts'', Many [''div'', ''span''])
     = Inr (''texts'', Seq [''Hello World'', ''World'']) \<and>
   selectorPromise site (site_page ''Home'' []) DefaultScrapingOptions home (''title'', Single ''h1'')
     = Inr (''title'', Seq [])"
  using field_value_arity [of DefaultScrapingOptions site "site_page ''Home'' []" home "''body''" "Single ''div''"]
    field_value_arity [of DefaultScrapingOptions site "site_page ''Home'' []" home "''texts''" "Many [''div'', ''span'']"]
    field_value_arity [of DefaultScrapingOptions site "site_page ''Home'' []" home "''title''" "Single ''h1''"]
  by (simp add: site_defs opt_defs allElements_def selectorTask_def extractedElements_def
        filteredEls_def normalise_text_def trim_def is_space_def unique_def)

section \<open>The hierarchy filter\<close>

lemma ancestor_selected_iff:
  "ancestor_selected sel (parentElement b) \<longleftrightarrow> (\<exists>a \<in> set sel. contains a b)"
  by (induction b) (auto simp: contains_def)

lemma contains_shorter: "contains a b \<Longrightarrow> length a < length b"
  unfolding contains_def by (induction b) auto

lemma filteredEls_member:
  "b \<in> set (filteredEls sel) \<longleftrightarrow> b \<in> set sel \<and> \<not> (\<exists>a \<in> set sel. contains a b)"
  by (simp add: filteredEls_def ancestor_selected_iff)

lemma filteredEls_pair: "contains a b \<Longrightarrow> filteredEls [a, b] = [a]"
  using contains_shorter [of a b] contains_shorter [of a a] contains_shorter [of b a]
  by (auto simp: filteredEls_def ancestor_selected_iff)

text \<open>
  Claim C4, as amended. The filter works on the matches of one selector: when \<open>a\<close> contains
  \<open>b\<close> and the same selector matches both, \<open>b\<close> does not survive it; and a field with the
  single selector whose matches are \<open>a\<close> and \<open>b\<close> extracts exactly one entry, the trimmed
  and space-collapsed text of \<open>a\<close> (when that text is not empty), stored as a bare string.
\<close>

theorem hierarchy_filter_per_selector:
  "(a \<in> set sel \<and> b \<in> set sel \<and> contains a b \<longrightarrow> b \<notin> set (filteredEls sel)) \<and>
   (contains a b \<and> 0 < retryCount options \<and>
    waitForSelector pg key 0 s (waitForSelectorTimeout options) = None \<and>
    eval_all pg key 0 s = Inr snap \<and> els snap = [a, b] \<and>
    normalise_text (textContent snap a) \<noteq> [] \<longrightarrow>
      fst (retry (field_operation pg options key (Single s)) (retryCount options) 1000 random)
        = Inr [normalise_text (textContent snap a)] \<and>
      selectorPromise w pg options url (key, Single s)
        = Inr (key, Scalar (normalise_text (textContent snap a))))"
proof (intro conjI impI)
  assume "a \<in> set sel \<and> b \<in> set sel \<and> contains a b"
  then show "b \<notin> set (filteredEls sel)"
    by (auto simp: filteredEls_member)
next
  assume h: "contains a b \<and> 0 < retryCount options \<and>
    waitForSelector pg key 0 s (waitForSelectorTimeout options) = None \<and>
    eval_all pg key 0 s = Inr snap \<and> els snap = [a, b] \<and>
    normalise_text (textContent snap a) \<noteq> []"
  then have all: "allElements pg options key (Single s) 0 = [normalise_text (textContent snap a)]"
    by (simp add: allElements_def selectorTask_def extractedElements_def filteredEls_pair)
  then have u: "unique (allElements pg options key (Single s) 0) = [normalise_text (textContent snap a)]"
    by (simp add: unique_def)
  show "fst (retry (field_operation pg options key (Single s)) (retryCount options) 1000 random)
        = Inr [normalise_text (textContent snap a)]"
    using h u by (simp add: retry_first_attempt field_operation_def)
  show "selectorPromise w pg options url (key, Single s)
        = Inr (key, Scalar (normalise_text (textContent snap a)))"
    using h u by (simp add: selectorPromise_value)
qed

theorem hierarchy_filter_per_selector_witness:
  "inner \<notin> set (filteredEls [outer, inner]) \<and>
   selectorPromise site home_page DefaultScrapingOptions home (''texts'', Single ''div, span'')
     = Inr (''texts'', Scalar ''Hello World'')"
  using hierarchy_filter_per_selector [of outer "[outer, inner]" inner DefaultScrapingOptions
          home_page "''texts''" "''div, span''" "\<lparr>els = [outer, inner], textContent = site_text\<rparr>"
          "\<lambda>i. 0" site home]
  by (simp add: site_defs home_page_def contains_def opt_defs normalise_text_def trim_def is_space_def)

text \<open>
  Claim C4 as stated fails when the two elements are matched by different selectors of the
  field: on the small site the \<^verbatim>\<open>div\<close> contains the \<^verbatim>\<open>span\<close>, both are in the union of
  the matches of \<^verbatim>\<open>['div', 'span']\<close>, and the field extracts two entries.
\<close>

theorem hierarchy_filter_across_selectors:
  "contains outer inner \<and>
   map_sum id els (eval_all home_page ''texts'' 0 ''div'') = Inr [outer] \<and>
   map_sum id els (eval_all home_page ''texts'' 0 ''span'') = Inr [inner] \<and>
   field_operation home_page DefaultScrapingOptions ''texts'' (Many [''div'', ''span'']) 0
     = Inr [''Hello World'', ''World''] \<and>
   selectorPromise site home_page DefaultScrapingOptions home (''texts'', Many [''div'', ''span''])
     = Inr (''texts'', Seq [''Hello World'', ''World''])"
  by (simp add: site_defs home_page_def contains_def opt_defs field_defs retry_loop.simps)

section \<open>Which links are followed\<close>

text \<open>
  The filter by what the caller passed for \<^verbatim>\<open>excludeChildPage\<close>: a predicate, nothing, or
  \<^verbatim>\<open>undefined\<close>.
\<close>

lemma child_link_filter:
  "(opt_excludeChildPage opts = Some (Some exclude) \<longrightarrow>
      validLinks w url (assign DefaultScrapingOptions opts) visited links
        = filter (\<lambda>link. isValidUrl w link \<and> link \<notin> visited \<and> exclude link) links) \<and>
   (opt_excludeChildPage opts = None \<longrightarrow>
      validLinks w url (assign DefaultScrapingOptions opts) visited links = []) \<and>
   (opt_excludeChildPage opts = Some None \<longrightarrow>
      validLinks w url (assign DefaultScrapingOptions opts) visited links
        = filter (\<lambda>link. link \<notin> visited \<and> hostname w link \<noteq> None \<and>
                          hostname w link = hostname w url) links)"
  by (auto simp: validLinks_def assign_def DefaultScrapingOptions_def isValidUrl_def
        isSameDomain_def split: option.splits intro!: filter_cong)

text \<open>
  Claim C2 on the small site. The caller supplies no predicate and asks for one level of
  recursion; the home page links to a page of its own host. The options then hold the
  default predicate, false for every URL, which is used as the inclusion test like a
  caller's predicate would be: the link is not kept, the fallback to the links of the
  parent's hostname is not taken, and no child page is scraped.
\<close>

theorem no_predicate_no_fallback:
  "opt_excludeChildPage one_level = None \<and>
   filter (\<lambda>link. hostname site link = hostname site home) [about, other] = [about] \<and>
   validLinks site home (assign DefaultScrapingOptions one_level) {home} [about, other] = [] \<and>
   scraping site home one_level =
     (Inr (ScrapingResult home ''Home'' [(''body'', Scalar ''Hello World'')] None),
      [Launch home, Goto home, Close home])"
  by (simp add: one_level_def scraping_def scrapeWebPage.simps site_defs opt_defs field_defs page_defs retry_loop.simps)

section \<open>The depth ceiling\<close>

text \<open>
  Claim C9. With \<open>maxDepth\<close> above 10 the entry point fails with the error
  \<^verbatim>\<open>Max depth exceeds the maximum depth\<close> and no call to the browser engine is made.
\<close>

theorem depth_ceiling:
  "opt_maxDepth opts = Some d \<Longrightarrow> 10 < d \<Longrightarrow>
   scraping w url opts = (Inl (Error ''Max depth exceeds the maximum depth''), [])"
  by (simp add: scraping_def assign_def MAX_DEEPEST_DEPTH_def)

theorem depth_ceiling_witness:
  "scraping site home (no_options\<lparr>opt_maxDepth := Some 11\<rparr>)
     = (Inl (Error ''Max depth exceeds the maximum depth''), [])"
  using depth_ceiling [of "no_options\<lparr>opt_maxDepth := Some 11\<rparr>" 11 site home]
  by (simp add: no_options_def)

section \<open>Pages without children\<close>

lemma scrapeWebPage_leaf:
  assumes "maxDepth options \<le> currentDepth \<or>
           (\<forall>visited links. validLinks w url options visited links = [])"
  shows "(\<exists>evs. trace (snd (scrapeWebPage w url options currentDepth s)) = trace s @ evs \<and>
                set evs \<subseteq> {Launch url, Goto url, Close url}) \<and>
         (\<forall>r. fst (scrapeWebPage w url options currentDepth s) = Inr r \<longrightarrow> childPages_of r = None)"
proof -
  have ch: "(if currentDepth < maxDepth options
             then scrapeChildren w options (validLinks w url options visited links)
                    (currentDepth + 1) s2 []
             else (Inr [], s2)) = (Inr [], s2)" for visited links s2
    using assms by auto
  show ?thesis
    by (simp add: scrapeWebPage.simps [of w url options currentDepth s] ch load_page_def
          finally_close_def emit_def Let_def split: option.splits sum.splits prod.splits)
qed

text \<open>
  Claim C3. When the caller supplies no \<^verbatim>\<open>excludeChildPage\<close>, whatever the seed URL and
  \<open>maxDepth\<close>: no link is valid, the only calls to the browser engine are those for the seed
  page, and a result that is returned has no \<^verbatim>\<open>childPages\<close>.
\<close>

theorem default_predicate_no_children:
  "opt_excludeChildPage opts = None \<Longrightarrow>
   validLinks w url (assign DefaultScrapingOptions opts) visited links = [] \<and>
   set (snd (scraping w url opts)) \<subseteq> {Launch url, Goto url, Close url} \<and>
   (\<forall>r. fst (scraping w url opts) = Inr r \<longrightarrow> childPages_of r = None)"
proof -
  assume a: "opt_excludeChildPage opts = None"
  let ?o = "assign DefaultScrapingOptions opts"
  let ?s0 = "\<lparr>visitedUrls = {}, trace = []\<rparr>"
  have v: "validLinks w url ?o visited links = []" for visited links
    using a by (simp add: validLinks_def assign_def DefaultScrapingOptions_def)
  then have "maxDepth ?o \<le> 0 \<or> (\<forall>visited links. validLinks w url ?o visited links = [])"
    by simp
  from scrapeWebPage_leaf [OF this, of ?s0]
  have "set (trace (snd (scrapeWebPage w url ?o 0 ?s0))) \<subseteq> {Launch url, Goto url, Close url}"
    and "\<forall>r. fst (scrapeWebPage w url ?o 0 ?s0) = Inr r \<longrightarrow> childPages_of r = None"
    by auto
  then have "set (snd (scraping w url opts)) \<subseteq> {Launch url, Goto url, Close url} \<and>
        (\<forall>r. fst (scraping w url opts) = Inr r \<longrightarrow> childPages_of r = None)"
    by (simp add: scraping_def Let_def case_prod_beta)
  then show ?thesis using v by simp
qed

theorem default_predicate_no_children_witness:
  "validLinks site home (assign DefaultScrapingOptions one_level) {home} [about, other] = [] \<and>
   set (snd (scraping site home one_level)) \<subseteq> {Launch home, Goto home, Close home} \<and>
   childPages_of (ScrapingResult home ''Home'' [(''body'', Scalar ''Hello World'')] None) = None \<and>
   fst (scraping site home one_level)
     = Inr (ScrapingResult home ''Home'' [(''body'', Scalar ''Hello World'')] None)"
proof -
  have e: "fst (scraping site home one_level)
     = Inr (ScrapingResult home ''Home'' [(''body'', Scalar ''Hello World'')] None)"
    by (simp add: one_level_def scraping_def scrapeWebPage.simps site_defs opt_defs field_defs
          page_defs retry_loop.simps)
  have h: "opt_excludeChildPage one_level = None"
    by (simp add: one_level_def no_options_def)
  show ?thesis
    using default_predicate_no_children [OF h, of site home "{home}" "[about, other]"] e
    by simp
qed

section \<open>A failed field on the small site\<close>

text \<open>
  Claim C5 on the small site. With the default options (three attempts,
  \<^verbatim>\<open>breakWhenFailed\<close> false) and a field whose selector \<^verbatim>\<open>h1\<close> times out at every attempt,
  the page result and the other field are returned, as the claim says; but the failed field
  is stored as the empty sequence, where the claim says the empty string. The rejection is
  absorbed inside the retried operation, so \<^verbatim>\<open>retry\<close> never fails and the \<^verbatim>\<open>catch\<close> that
  stores the empty string is not reached.
\<close>

theorem failed_field_is_empty_sequence:
  "breakWhenFailed (assign DefaultScrapingOptions two_fields) = False \<and>
   retryCount (assign DefaultScrapingOptions two_fields) = 3 \<and>
   selectorTask home_page (assign DefaultScrapingOptions two_fields) ''title'' 0 ''h1''
     = Inl (Error ''TimeoutError'') \<and>
   selectorTask home_page (assign DefaultScrapingOptions two_fields) ''title'' 1 ''h1''
     = Inl (Error ''TimeoutError'') \<and>
   selectorTask home_page (assign DefaultScrapingOptions two_fields) ''title'' 2 ''h1''
     = Inl (Error ''TimeoutError'') \<and>
   fst (scraping site home two_fields)
     = Inr (ScrapingResult home ''Home''
              [(''title'', Seq []), (''body'', Scalar ''Hello World'')] None) \<and>
   fst (scraping site home two_fields)
     \<noteq> Inr (ScrapingResult home ''Home''
              [(''title'', Scalar []), (''body'', Scalar ''Hello World'')] None)"
  by (simp add: two_fields_def scraping_def scrapeWebPage.simps site_defs opt_defs field_defs
        page_defs retry_loop.simps)

text \<open>
  Claim C1 on the small site: with \<^verbatim>\<open>breakWhenFailed\<close> true and a field whose selector
  times out at every attempt, the scrape does not fail; the page result is returned with the
  field stored as the empty sequence. The same holds when \<open>retryCount\<close> is 0 and the retry
  of every field fails: the fields are stored as empty strings and the scrape still returns.
\<close>

theorem break_when_failed_ignores_fields:
  "breakWhenFailed (assign DefaultScrapingOptions (two_fields\<lparr>opt_breakWhenFailed := Some True\<rparr>)) \<and>
   selectorTask home_page (assign DefaultScrapingOptions (two_fields\<lparr>opt_breakWhenFailed := Some True\<rparr>))
     ''title'' 0 ''h1'' = Inl (Error ''TimeoutError'') \<and>
   scraping site home (two_fields\<lparr>opt_breakWhenFailed := Some True\<rparr>)
     = (Inr (ScrapingResult home ''Home''
               [(''title'', Seq []), (''body'', Scalar ''Hello World'')] None),
        [Launch home, Goto home, Close home]) \<and>
   scraping site home (two_fields\<lparr>opt_breakWhenFailed := Some True, opt_retryCount := Some 0\<rparr>)
     = (Inr (ScrapingResult home ''Home''
               [(''title'', Scalar []), (''body'', Scalar [])] None),
        [Launch home, Goto home, Close home])"
  by (simp add: two_fields_def scraping_def scrapeWebPage.simps site_defs opt_defs field_defs
        page_defs retry_loop.simps)

section \<open>The visited set\<close>

lemma launched_append: "launched (xs @ ys) = launched xs @ launched ys"
  by (induction xs rule: launched.induct) auto

lemma scrapeWebPage_revisit:
  "url \<in> visitedUrls s \<Longrightarrow>
   scrapeWebPage w url options currentDepth s
     = (Inr (ScrapingResult url ''Already visited'' [] None), s)"
  by (simp add: scrapeWebPage.simps [of w url options currentDepth s])

text \<open>The state after the scrape of an unvisited URL.\<close>

lemma scrapeWebPage_state:
  assumes "url \<notin> visitedUrls s"
  shows "(launched (trace (snd (scrapeWebPage w url options currentDepth s)))
            = launched (trace s) @ [url] \<and>
          visitedUrls (snd (scrapeWebPage w url options currentDepth s))
            = insert url (visitedUrls s)) \<or>
         (currentDepth < maxDepth options \<and>
          (\<exists>links s2 out s3.
             scrapeChildren w options links (currentDepth + 1) s2 [] = (out, s3) \<and>
             launched (trace s2) = launched (trace s) @ [url] \<and>
             visitedUrls s2 = insert url (visitedUrls s) \<and>
             launched (trace (snd (scrapeWebPage w url options currentDepth s)))
               = launched (trace s3) \<and>
             visitedUrls (snd (scrapeWebPage w url options currentDepth s)) = visitedUrls s3))"
  using assms
  apply (simp add: scrapeWebPage.simps [of w url options currentDepth s] load_page_def
          finally_close_def emit_def Let_def launched_append
          split: option.splits sum.splits prod.splits if_splits)
  apply (intro conjI impI allI)
     apply (rule disjI2, intro exI conjI, assumption, (simp add: launched_append)+)+
  done


lemma session_steps:
  assumes "launched t1 = launched t0 @ ls1" "distinct ls1" "set ls1 \<inter> v0 = {}"
    "v1 = v0 \<union> set ls1"
    "launched t2 = launched t1 @ ls2" "distinct ls2" "set ls2 \<inter> v1 = {}"
    "v2 = v1 \<union> set ls2"
  shows "launched t2 = launched t0 @ (ls1 @ ls2) \<and> distinct (ls1 @ ls2) \<and>
         set (ls1 @ ls2) \<inter> v0 = {} \<and> v2 = v0 \<union> set (ls1 @ ls2)"
  using assms by auto

lemma scrapeChildren_session:
  assumes page: "\<And>link s. \<exists>ls.
      launched (trace (snd (scrapeWebPage w link options depth s))) = launched (trace s) @ ls \<and>
      distinct ls \<and> set ls \<inter> visitedUrls s = {} \<and>
      visitedUrls (snd (scrapeWebPage w link options depth s)) = visitedUrls s \<union> set ls"
  shows "\<exists>ls.
      launched (trace (snd (scrapeChildren w options links depth s acc))) = launched (trace s) @ ls \<and>
      distinct ls \<and> set ls \<inter> visitedUrls s = {} \<and>
      visitedUrls (snd (scrapeChildren w options links depth s acc)) = visitedUrls s \<union> set ls"
proof (induction links arbitrary: s acc)
  case Nil
  show ?case by simp
next
  case (Cons link rest)
  obtain outcome s' where o: "scrapeWebPage w link options depth s = (outcome, s')"
    by (cases "scrapeWebPage w link options depth s")
  obtain ls1 where 1: "launched (trace s') = launched (trace s) @ ls1" "distinct ls1"
      "set ls1 \<inter> visitedUrls s = {}" "visitedUrls s' = visitedUrls s \<union> set ls1"
    using page [of link s] o by auto
  have here: "\<exists>ls. launched (trace s') = launched (trace s) @ ls \<and> distinct ls \<and>
                  set ls \<inter> visitedUrls s = {} \<and> visitedUrls s' = visitedUrls s \<union> set ls"
    using 1 by blast
  have go_on: "\<exists>ls.
      launched (trace (snd (scrapeChildren w options rest depth s' acc'))) = launched (trace s) @ ls \<and>
      distinct ls \<and> set ls \<inter> visitedUrls s = {} \<and>
      visitedUrls (snd (scrapeChildren w options rest depth s' acc')) = visitedUrls s \<union> set ls"
    for acc'
  proof -
    obtain ls2 where 2:
      "launched (trace (snd (scrapeChildren w options rest depth s' acc')))
         = launched (trace s') @ ls2"
      "distinct ls2" "set ls2 \<inter> visitedUrls s' = {}"
      "visitedUrls (snd (scrapeChildren w options rest depth s' acc')) = visitedUrls s' \<union> set ls2"
      using Cons.IH [of s' acc'] by auto
    from session_steps [OF 1 2] show ?thesis by blast
  qed
  show ?case
  proof (cases outcome)
    case (Inl e)
    then show ?thesis
      using o here go_on [of acc] by (cases "breakWhenFailed options") simp_all
  next
    case (Inr r)
    then show ?thesis
      using o go_on [of "acc @ [r]"] by simp
  qed
qed

lemma scrapeWebPage_session:
  "\<exists>ls.
     launched (trace (snd (scrapeWebPage w url options currentDepth s)))
       = launched (trace s) @ ls \<and>
     distinct ls \<and> set ls \<inter> visitedUrls s = {} \<and>
     visitedUrls (snd (scrapeWebPage w url options currentDepth s)) = visitedUrls s \<union> set ls \<and>
     (url \<notin> visitedUrls s \<longrightarrow> ls \<noteq> [] \<and> hd ls = url)"
proof (induction "nat (maxDepth options - currentDepth)" arbitrary: currentDepth url s
        rule: less_induct)
  case less
  let ?s' = "snd (scrapeWebPage w url options currentDepth s)"
  show ?case
  proof (cases "url \<in> visitedUrls s")
    case True
    then show ?thesis by (simp add: scrapeWebPage_revisit)
  next
    case False
    from scrapeWebPage_state [OF False, of w options currentDepth]
    consider
      (leaf) "launched (trace ?s') = launched (trace s) @ [url]"
        "visitedUrls ?s' = insert url (visitedUrls s)"
    | (inner) links s2 out s3 where "currentDepth < maxDepth options"
        "scrapeChildren w options links (currentDepth + 1) s2 [] = (out, s3)"
        "launched (trace s2) = launched (trace s) @ [url]"
        "visitedUrls s2 = insert url (visitedUrls s)"
        "launched (trace ?s') = launched (trace s3)"
        "visitedUrls ?s' = visitedUrls s3"
      by blast
    then show ?thesis
    proof cases
      case leaf
      have "launched (trace ?s') = launched (trace s) @ [url] \<and> distinct [url] \<and>
            set [url] \<inter> visitedUrls s = {} \<and> visitedUrls ?s' = visitedUrls s \<union> set [url] \<and>
            (url \<notin> visitedUrls s \<longrightarrow> [url] \<noteq> [] \<and> hd [url] = url)"
        using leaf False by simp
      then show ?thesis by blast
    next
      case inner
      have page: "\<exists>ls.
          launched (trace (snd (scrapeWebPage w link options (currentDepth + 1) s'))) = launched (trace s') @ ls \<and>
          distinct ls \<and> set ls \<inter> visitedUrls s' = {} \<and>
          visitedUrls (snd (scrapeWebPage w link options (currentDepth + 1) s')) = visitedUrls s' \<union> set ls"
        for link s'
        using less [of "currentDepth + 1" link s'] inner(1) by auto
      obtain ls2 where 2: "launched (trace s3) = launched (trace s2) @ ls2" "distinct ls2"
          "set ls2 \<inter> visitedUrls s2 = {}" "visitedUrls s3 = visitedUrls s2 \<union> set ls2"
        using scrapeChildren_session [of w options "currentDepth + 1" links s2 "[]", OF page]
          inner(2) by auto
      have "launched (trace ?s') = launched (trace s) @ (url # ls2) \<and> distinct (url # ls2) \<and>
            set (url # ls2) \<inter> visitedUrls s = {} \<and>
            visitedUrls ?s' = visitedUrls s \<union> set (url # ls2) \<and>
            (url \<notin> visitedUrls s \<longrightarrow> url # ls2 \<noteq> [] \<and> hd (url # ls2) = url)"
        using inner 2 False by auto
      then show ?thesis by blast
    qed
  qed
qed

text \<open>
  Claim C10. A scrape of a URL that is already in the visited set returns, as a normal
  result and with the session's state unchanged, the result with the title
  \<^verbatim>\<open>Already visited\<close>, empty data and no children; so the loop over the links of the parent
  appends that result and goes on. Otherwise the URL is marked before anything is navigated:
  it is in the visited set after the call whatever the outcome, and already when the first
  call to the browser engine, the launch, is rejected; it is the first URL the call launches
  a browser for and, being marked, it is not launched again by any page below it, however
  the links run; no URL visited before is launched, no URL is launched twice, and the
  visited set grows by exactly the URLs launched.
\<close>

theorem cycle_guard:
  "(url \<in> visitedUrls s \<longrightarrow>
      scrapeWebPage w url options currentDepth s
        = (Inr (ScrapingResult url ''Already visited'' [] None), s) \<and>
      scrapeChildren w options (url # rest) currentDepth s acc
        = scrapeChildren w options rest currentDepth s
            (acc @ [ScrapingResult url ''Already visited'' [] None])) \<and>
   (url \<notin> visitedUrls s \<longrightarrow>
      url \<in> visitedUrls (snd (scrapeWebPage w url options currentDepth s)) \<and>
      (\<forall>e. launch w url = Some e \<longrightarrow>
         scrapeWebPage w url options currentDepth s
           = (Inl e, s\<lparr>visitedUrls := insert url (visitedUrls s),
                       trace := trace s @ [Launch url]\<rparr>)) \<and>
      (\<exists>ls. launched (trace (snd (scrapeWebPage w url options currentDepth s)))
               = launched (trace s) @ url # ls \<and>
            url \<notin> set ls \<and> distinct ls \<and> set ls \<inter> visitedUrls s = {} \<and>
            visitedUrls (snd (scrapeWebPage w url options currentDepth s))
               = insert url (visitedUrls s \<union> set ls)))"
proof (intro conjI impI allI)
  assume "url \<in> visitedUrls s"
  then show v: "scrapeWebPage w url options currentDepth s
        = (Inr (ScrapingResult url ''Already visited'' [] None), s)"
    by (rule scrapeWebPage_revisit)
  show "scrapeChildren w options (url # rest) currentDepth s acc
        = scrapeChildren w options rest currentDepth s
            (acc @ [ScrapingResult url ''Already visited'' [] None])"
    by (simp add: v)
next
  assume new: "url \<notin> visitedUrls s"
  obtain ls where ls:
    "launched (trace (snd (scrapeWebPage w url options currentDepth s))) = launched (trace s) @ ls"
    "distinct ls" "set ls \<inter> visitedUrls s = {}"
    "visitedUrls (snd (scrapeWebPage w url options currentDepth s)) = visitedUrls s \<union> set ls"
    "ls \<noteq> []" "hd ls = url"
    using scrapeWebPage_session [of w url options currentDepth s] new by auto
  then obtain ls' where l: "ls = url # ls'" by (cases ls) auto
  show "url \<in> visitedUrls (snd (scrapeWebPage w url options currentDepth s))"
    using ls(4) l by simp
  have "launched (trace (snd (scrapeWebPage w url options currentDepth s)))
               = launched (trace s) @ url # ls' \<and>
            url \<notin> set ls' \<and> distinct ls' \<and> set ls' \<inter> visitedUrls s = {} \<and>
            visitedUrls (snd (scrapeWebPage w url options currentDepth s))
               = insert url (visitedUrls s \<union> set ls')"
    using ls l by auto
  then show "\<exists>ls. launched (trace (snd (scrapeWebPage w url options currentDepth s)))
               = launched (trace s) @ url # ls \<and>
            url \<notin> set ls \<and> distinct ls \<and> set ls \<inter> visitedUrls s = {} \<and>
            visitedUrls (snd (scrapeWebPage w url options currentDepth s))
               = insert url (visitedUrls s \<union> set ls)"
    by blast
next
  fix e assume "url \<notin> visitedUrls s" "launch w url = Some e"
  then show "scrapeWebPage w url options currentDepth s
           = (Inl e, s\<lparr>visitedUrls := insert url (visitedUrls s),
                       trace := trace s @ [Launch url]\<rparr>)"
    by (simp add: scrapeWebPage.simps [of w url options currentDepth s] emit_def Let_def)
qed

theorem cycle_guard_witness:
  "scrapeWebPage site other (assign DefaultScrapingOptions follow_all) 1
      \<lparr>visitedUrls = {home, about, other}, trace = []\<rparr>
     = (Inr (ScrapingResult other ''Already visited'' [] None),
        \<lparr>visitedUrls = {home, about, other}, trace = []\<rparr>) \<and>
   scrapeWebPage offline home (assign DefaultScrapingOptions follow_all) 0
      \<lparr>visitedUrls = {}, trace = []\<rparr>
     = (Inl (Error ''Failed to launch the browser process''),
        \<lparr>visitedUrls = {home}, trace = [Launch home]\<rparr>) \<and>
   launched (trace (snd (scrapeWebPage site home (assign DefaultScrapingOptions follow_all) 0
                           \<lparr>visitedUrls = {}, trace = []\<rparr>)))
     = [home, about, other] \<and>
   visitedUrls (snd (scrapeWebPage site home (assign DefaultScrapingOptions follow_all) 0
                       \<lparr>visitedUrls = {}, trace = []\<rparr>))
     = {home, about, other}"
proof -
  have run: "snd (scrapeWebPage site home (assign DefaultScrapingOptions follow_all) 0
                    \<lparr>visitedUrls = {}, trace = []\<rparr>)
     = \<lparr>visitedUrls = {other, about, home},
        trace = [Launch home, Goto home, Launch about, Goto about, Launch other, Goto other,
                 Close other, Close about, Close home]\<rparr>"
    by (simp add: follow_all_def scrapeWebPage.simps site_defs opt_defs field_defs page_defs
          retry_loop.simps)
  have revisit: "scrapeWebPage site other (assign DefaultScrapingOptions follow_all) 1
      \<lparr>visitedUrls = {home, about, other}, trace = []\<rparr>
     = (Inr (ScrapingResult other ''Already visited'' [] None),
        \<lparr>visitedUrls = {home, about, other}, trace = []\<rparr>)"
    using cycle_guard [of other "\<lparr>visitedUrls = {home, about, other}, trace = []\<rparr>" site
            "assign DefaultScrapingOptions follow_all" 1 "[]" "[]"]
    by simp
  have rejected: "scrapeWebPage offline home (assign DefaultScrapingOptions follow_all) 0
      \<lparr>visitedUrls = {}, trace = []\<rparr>
     = (Inl (Error ''Failed to launch the browser process''),
        \<lparr>visitedUrls = {home}, trace = [Launch home]\<rparr>)"
    using cycle_guard [of home "\<lparr>visitedUrls = {}, trace = []\<rparr>" offline
            "assign DefaultScrapingOptions follow_all" 0 "[]" "[]"]
    by (simp add: offline_def site_def)
  show ?thesis
    using revisit rejected by (auto simp: run)
qed

section \<open>The depth bound\<close>



end
